theory Spec2Isabelle
  imports Main "HOL-Library.Word" "HOL-Library.Sublist"
begin

section \<open>Bytes and byte slices\<close>

text \<open>
  A Go \<^verbatim>\<open>byte\<close> is an unsigned 8-bit integer and a \<^verbatim>\<open>[]byte\<close> a finite sequence of
  them. The program only ever reads slices or replaces them as a whole, so a slice is a
  list.
\<close>

type_synonym byte = "8 word"

subsection \<open>\<^verbatim>\<open>bytes.Contains\<close>\<close>

text \<open>
  \<^verbatim>\<open>bytes.Contains(b, subslice)\<close> of the Go standard library reports whether
  \<^verbatim>\<open>subslice\<close> is within \<^verbatim>\<open>b\<close>: it searches for the first position of \<^verbatim>\<open>b\<close> at
  which \<^verbatim>\<open>subslice\<close> starts. The empty subslice is found at position 0 of every slice.
\<close>

fun hasPrefix :: "byte list \<Rightarrow> byte list \<Rightarrow> bool" where
  "hasPrefix s [] = True"
| "hasPrefix [] (p # ps) = False"
| "hasPrefix (x # xs) (p # ps) = (x = p \<and> hasPrefix xs ps)"

fun bytesContains :: "byte list \<Rightarrow> byte list \<Rightarrow> bool" where
  "bytesContains [] subslice = (subslice = [])"
| "bytesContains (x # xs) subslice = (hasPrefix (x # xs) subslice \<or> bytesContains xs subslice)"

section \<open>The BER library\<close>

text \<open>
  The program reads, rebuilds and serialises messages through the library
  \<^verbatim>\<open>github.com/go-asn1-ber/asn1-ber\<close>, which is not part of the repository. What follows
  models the functions of the library that the program calls (\<^verbatim>\<open>ReadPacket\<close>,
  \<^verbatim>\<open>DecodePacket\<close>, \<^verbatim>\<open>Encode\<close>, \<^verbatim>\<open>NewInteger\<close>, \<^verbatim>\<open>AppendChild\<close>, \<^verbatim>\<open>Bytes\<close>) after the
  library's source, on a 64-bit platform. Bit masks and shifts are written as arithmetic
  on the value of the octet: \<^verbatim>\<open>b & 0xC0\<close> selects \<open>unat b div 64\<close>, \<^verbatim>\<open>b & 0x20\<close>
  selects \<open>unat b div 32 mod 2\<close>, \<^verbatim>\<open>b & 0x1F\<close> is \<open>unat b mod 32\<close>, \<^verbatim>\<open>b & 0x7F\<close> is
  \<open>unat b mod 128\<close> and \<^verbatim>\<open>b & 0x80\<close> selects \<open>unat b div 128\<close>.
\<close>

subsection \<open>Identifiers and packets\<close>

datatype Class = ClassUniversal | ClassApplication | ClassContext | ClassPrivate

datatype Type = TypePrimitive | TypeConstructed

text \<open>\<^verbatim>\<open>type Tag uint64\<close>; the constants the program names.\<close>

definition TagEOC :: nat where "TagEOC = 0"
definition TagInteger :: nat where "TagInteger = 2"
definition TagSequence :: nat where "TagSequence = 16"
definition HighTag :: nat where "HighTag = 31"

record Identifier =
  ClassType :: Class
  TagType :: Type
  Tag :: nat

text \<open>
  \<^verbatim>\<open>Packet.Value\<close> is an \<^verbatim>\<open>interface{}\<close>. The program only asks whether it holds an
  \<^verbatim>\<open>int64\<close> (the type assertion on the message identifier), so the other dynamic types
  the library stores (booleans, strings) are one constructor.
\<close>

datatype Value = NilValue | Int64Value int | OtherValue

text \<open>
  \<^verbatim>\<open>Packet.Data\<close> is the buffer of the content octets and \<^verbatim>\<open>Packet.Children\<close> the
  decoded children.
\<close>

datatype Packet = Packet (Ident: Identifier) (Val: Value) (Data: "byte list") (Children: "Packet list")

subsection \<open>Serialisation\<close>

definition classBits :: "Class \<Rightarrow> nat" where
  "classBits c = (case c of ClassUniversal \<Rightarrow> 0 | ClassApplication \<Rightarrow> 64
                   | ClassContext \<Rightarrow> 128 | ClassPrivate \<Rightarrow> 192)"

definition typeBits :: "Type \<Rightarrow> nat" where
  "typeBits t = (case t of TypePrimitive \<Rightarrow> 0 | TypeConstructed \<Rightarrow> 32)"

text \<open>
  \<^verbatim>\<open>encodeHighTag\<close>: the tag in groups of seven bits, most significant group first,
  every group but the last with the continuation bit. The library collects the groups
  from the least significant one and reverses them; \<open>highTagGroups\<close> is the loop that
  collects, \<open>first\<close> telling whether the slice is still empty.
\<close>

function highTagGroups :: "bool \<Rightarrow> nat \<Rightarrow> byte list" where
  "highTagGroups first tag =
     (if tag = 0 then []
      else of_nat (tag mod 128 + (if first then 0 else 128)) # highTagGroups False (tag div 128))"
  by pat_completeness auto
termination
  by (relation "measure (\<lambda>(first, tag). tag)") auto

definition encodeHighTag :: "nat \<Rightarrow> byte list" where
  "encodeHighTag tag = rev (highTagGroups True tag)"

definition encodeIdentifier :: "Identifier \<Rightarrow> byte list" where
  "encodeIdentifier identifier =
     (if Tag identifier < HighTag
      then [of_nat (classBits (ClassType identifier) + typeBits (TagType identifier) + Tag identifier)]
      else of_nat (classBits (ClassType identifier) + typeBits (TagType identifier) + HighTag)
             # encodeHighTag (Tag identifier))"

text \<open>
  \<^verbatim>\<open>uint64Length\<close> counts the octets of an unsigned number, \<^verbatim>\<open>encodeUnsignedInteger\<close>
  writes them most significant first, and \<^verbatim>\<open>encodeLength\<close> chooses the short form for
  lengths up to 127 and the long form with the fewest octets otherwise.
\<close>

function uint64Length :: "nat \<Rightarrow> nat" where
  "uint64Length i = (if i > 255 then Suc (uint64Length (i div 256)) else 1)"
  by pat_completeness auto
termination
  by (relation "measure id") auto

fun bigEndian :: "nat \<Rightarrow> int \<Rightarrow> byte list" where
  "bigEndian 0 i = []"
| "bigEndian (Suc n) i = of_int (i div 256 ^ n) # bigEndian n i"

definition encodeUnsignedInteger :: "nat \<Rightarrow> byte list" where
  "encodeUnsignedInteger i = bigEndian (uint64Length i) (int i)"

definition encodeLength :: "nat \<Rightarrow> byte list" where
  "encodeLength n =
     (let lengthBytes = encodeUnsignedInteger n
      in if n > 127 \<or> length lengthBytes > 1
         then of_nat (128 + length lengthBytes) # lengthBytes
         else lengthBytes)"

text \<open>
  \<^verbatim>\<open>Packet.Bytes()\<close> serialises the identifier, the length of the data buffer and the
  data buffer. It does not keep the octets the packet was read from.
\<close>

definition Bytes :: "Packet \<Rightarrow> byte list" where
  "Bytes p = encodeIdentifier (Ident p) @ encodeLength (length (Data p)) @ Data p"

text \<open>
  \<^verbatim>\<open>int64Length\<close> and \<^verbatim>\<open>encodeInteger\<close>: the two's complement octets of a signed
  number, as few as hold it. The arithmetic shift \<^verbatim>\<open>i >>= 8\<close> is the division that rounds
  down.
\<close>

function int64LengthPos :: "int \<Rightarrow> nat" where
  "int64LengthPos i = (if i > 127 then Suc (int64LengthPos (i div 256)) else 0)"
  by pat_completeness auto
termination
  by (relation "measure nat") auto

function int64LengthNeg :: "int \<Rightarrow> nat" where
  "int64LengthNeg i = (if i < - 128 then Suc (int64LengthNeg (i div 256)) else 0)"
  by pat_completeness auto
termination
  by (relation "measure (\<lambda>i. nat (- i))") auto

definition int64Length :: "int \<Rightarrow> nat" where
  "int64Length i = 1 + int64LengthPos i + int64LengthNeg i"

definition encodeInteger :: "int \<Rightarrow> byte list" where
  "encodeInteger i = bigEndian (int64Length i) i"

subsection \<open>Building packets\<close>

text \<open>
  \<^verbatim>\<open>Encode(class, type, tag, nil, description)\<close> with a \<^verbatim>\<open>nil\<close> value, the only way the
  program calls it: an empty packet. \<^verbatim>\<open>NewInteger\<close> with an \<^verbatim>\<open>int64\<close> value.
  \<^verbatim>\<open>AppendChild\<close> writes the serialised child to the data buffer and appends the child.
\<close>

definition Encode :: "Class \<Rightarrow> Type \<Rightarrow> nat \<Rightarrow> Packet" where
  "Encode classType tagType tag =
     Packet \<lparr>ClassType = classType, TagType = tagType, Tag = tag\<rparr> NilValue [] []"

definition NewInteger :: "Class \<Rightarrow> Type \<Rightarrow> nat \<Rightarrow> int \<Rightarrow> Packet" where
  "NewInteger classType tagType tag v =
     Packet \<lparr>ClassType = classType, TagType = tagType, Tag = tag\<rparr> (Int64Value v) (encodeInteger v) []"

definition AppendChild :: "Packet \<Rightarrow> Packet \<Rightarrow> Packet" where
  "AppendChild p child = Packet (Ident p) (Val p) (Data p @ Bytes child) (Children p @ [child])"

subsection \<open>Reading packets\<close>

text \<open>
  The reader is the sequence of octets that the connection delivers before it ends; a read
  takes octets from its front. \<open>OutOfFuel\<close> is not an error of the library: it marks a
  recursion of the model that was cut short (see \<open>readPacket\<close>).
\<close>

datatype ReadError = EOF | UnexpectedEOF | Malformed | OutOfFuel

definition classOf :: "byte \<Rightarrow> Class" where
  "classOf b =
     (let c = unat b div 64
      in if c = 0 then ClassUniversal else if c = 1 then ClassApplication
         else if c = 2 then ClassContext else ClassPrivate)"

definition typeOf :: "byte \<Rightarrow> Type" where
  "typeOf b = (if unat b div 32 mod 2 = 0 then TypePrimitive else TypeConstructed)"

text \<open>
  The loop of \<^verbatim>\<open>readIdentifier\<close> over the octets of a high tag number: \<open>tagBytes\<close> octets
  were read so far. The first octet may not carry seven zero bits, and a tenth octet is
  refused.
\<close>

fun readHighTag :: "nat \<Rightarrow> nat \<Rightarrow> byte list \<Rightarrow> ReadError + (nat \<times> byte list)" where
  "readHighTag tagBytes tag [] = Inl UnexpectedEOF"
| "readHighTag tagBytes tag (b # reader) =
     (let tag' = (tag * 128) mod 2 ^ 64 + unat b mod 128
      in if tagBytes + 1 = 1 \<and> tag' = 0 then Inl Malformed
         else if tagBytes + 1 > 9 then Inl Malformed
         else if unat b div 128 = 0 then Inr (tag', reader)
         else readHighTag (tagBytes + 1) tag' reader)"

definition readIdentifier :: "byte list \<Rightarrow> ReadError + (Identifier \<times> byte list)" where
  "readIdentifier reader =
     (case reader of
        [] \<Rightarrow> Inl EOF
      | b # reader' \<Rightarrow>
          if unat b mod 32 \<noteq> HighTag
          then Inr (\<lparr>ClassType = classOf b, TagType = typeOf b, Tag = unat b mod 32\<rparr>, reader')
          else (case readHighTag 0 0 reader' of
                  Inl e \<Rightarrow> Inl e
                | Inr (tag, reader'') \<Rightarrow>
                    Inr (\<lparr>ClassType = classOf b, TagType = typeOf b, Tag = tag\<rparr>, reader'')))"

text \<open>
  \<^verbatim>\<open>readLength\<close>. The octets of the long form are accumulated in an \<^verbatim>\<open>int64\<close>; \<open>int64\<close>
  reads a 64-bit pattern as a signed number. \<^verbatim>\<open>LengthIndefinite\<close> is \<open>-1\<close>.
\<close>

definition LengthIndefinite :: int where
  "LengthIndefinite = - 1"

definition int64 :: "nat \<Rightarrow> int" where
  "int64 u = (if u mod 2 ^ 64 < 2 ^ 63 then int (u mod 2 ^ 64) else int (u mod 2 ^ 64) - 2 ^ 64)"

fun readLengthBytes :: "nat \<Rightarrow> nat \<Rightarrow> byte list \<Rightarrow> ReadError + (nat \<times> byte list)" where
  "readLengthBytes 0 length64 reader = Inr (length64, reader)"
| "readLengthBytes (Suc n) length64 [] = Inl UnexpectedEOF"
| "readLengthBytes (Suc n) length64 (b # reader) =
     readLengthBytes n ((length64 * 256) mod 2 ^ 64 + unat b) reader"

definition readLength :: "byte list \<Rightarrow> ReadError + (int \<times> byte list)" where
  "readLength reader =
     (case reader of
        [] \<Rightarrow> Inl UnexpectedEOF
      | b # reader' \<Rightarrow>
          if unat b = 255 then Inl Malformed
          else if unat b = 128 then Inr (LengthIndefinite, reader')
          else if unat b div 128 = 0 then Inr (int (unat b mod 128), reader')
          else if unat b mod 128 > 8 then Inl Malformed
          else (case readLengthBytes (unat b mod 128) 0 reader' of
                  Inl e \<Rightarrow> Inl e
                | Inr (length64, reader'') \<Rightarrow> Inr (int64 length64, reader'')))"

definition readHeader :: "byte list \<Rightarrow> ReadError + (Identifier \<times> int \<times> byte list)" where
  "readHeader reader =
     (case readIdentifier reader of
        Inl e \<Rightarrow> Inl e
      | Inr (identifier, reader1) \<Rightarrow>
          (case readLength reader1 of
             Inl e \<Rightarrow> Inl e
           | Inr (len, reader2) \<Rightarrow>
               if len = LengthIndefinite \<and> TagType identifier = TypePrimitive then Inl Malformed
               else if len < LengthIndefinite then Inl Malformed
               else Inr (identifier, len, reader2)))"

text \<open>
  \<^verbatim>\<open>ParseInt64\<close>: up to eight octets, big-endian, sign-extended; more octets are an error
  that \<^verbatim>\<open>readPacket\<close> drops, keeping the value 0.
\<close>

definition ParseInt64 :: "byte list \<Rightarrow> int" where
  "ParseInt64 bs =
     (if length bs > 8 \<or> bs = [] then 0
      else let u = foldl (\<lambda>ret b. ret * 256 + int (unat b)) 0 bs
           in if u < 2 ^ (8 * length bs - 1) then u else u - 2 ^ (8 * length bs))"

text \<open>
  The value \<^verbatim>\<open>readPacket\<close> stores for a primitive packet: none outside the universal
  class; in it an \<^verbatim>\<open>int64\<close> for INTEGER (2) and ENUMERATED (10), a boolean or a string for
  BOOLEAN (1), BIT STRING (3), OCTET STRING (4) and the string types (12, 18 to 22, 25 to
  30), none for the other tags.
\<close>

definition decodeValue :: "Identifier \<Rightarrow> byte list \<Rightarrow> Value" where
  "decodeValue identifier content =
     (if ClassType identifier \<noteq> ClassUniversal then NilValue
      else if Tag identifier = 2 \<or> Tag identifier = 10 then Int64Value (ParseInt64 content)
      else if Tag identifier \<in> {1, 3, 4, 12, 18, 19, 20, 21, 22, 25, 26, 27, 28, 29, 30}
      then OtherValue
      else NilValue)"

text \<open>
  \<^verbatim>\<open>isEOCPacket\<close>: the end-of-content marker of the indefinite form.
\<close>

definition isEOCPacket :: "Packet \<Rightarrow> bool" where
  "isEOCPacket p =
     (Tag (Ident p) = TagEOC \<and> ClassType (Ident p) = ClassUniversal
      \<and> TagType (Ident p) = TypePrimitive \<and> length (Data p) = 0 \<and> length (Children p) = 0)"

definition MaxPacketLengthBytes :: int where
  "MaxPacketLengthBytes = 2147483647"

text \<open>
  \<^verbatim>\<open>readPacket\<close> reads a header and then, for a constructed packet, one child after the
  other from the same reader until the children have taken as many octets as the header
  announced (or, in the indefinite form, until the end-of-content marker); for a primitive
  packet it reads the announced number of content octets. \<open>readChildren\<close> is that loop
  over the children: \<open>contentRead\<close> counts the octets the children took, \<open>p\<close> is the
  packet built so far.

  The library's function calls itself for every child. The model bounds the depth of
  these calls by its first argument; \<open>ReadPacket_never_OutOfFuel\<close> shows that the bound
  \<open>ReadPacket\<close> starts with is never reached.
\<close>

fun readPacket :: "nat \<Rightarrow> byte list \<Rightarrow> ReadError + (Packet \<times> byte list)"
  and readChildren :: "nat \<Rightarrow> int \<Rightarrow> int \<Rightarrow> Packet \<Rightarrow> byte list \<Rightarrow> ReadError + (Packet \<times> byte list)"
where
  "readPacket 0 reader = Inl OutOfFuel"
| "readPacket (Suc fuel) reader =
     (case readHeader reader of
        Inl e \<Rightarrow> Inl e
      | Inr (identifier, len, reader') \<Rightarrow>
          if TagType identifier = TypeConstructed
          then readChildren fuel len 0 (Packet identifier NilValue [] []) reader'
          else if len > MaxPacketLengthBytes then Inl Malformed
          else if int (length reader') < len then Inl UnexpectedEOF
          else Inr (Packet identifier (decodeValue identifier (take (nat len) reader'))
                      (take (nat len) reader') [],
                    drop (nat len) reader'))"
| "readChildren 0 len contentRead p reader = Inl OutOfFuel"
| "readChildren (Suc fuel) len contentRead p reader =
     (if len \<noteq> LengthIndefinite \<and> contentRead = len then Inr (p, reader)
      else if len \<noteq> LengthIndefinite \<and> contentRead > len then Inl Malformed
      else (case readPacket fuel reader of
              Inl e \<Rightarrow> Inl e
            | Inr (child, reader') \<Rightarrow>
                if isEOCPacket child
                then (if len = LengthIndefinite then Inr (p, reader') else Inl Malformed)
                else readChildren fuel len
                       (contentRead + (int (length reader) - int (length reader')))
                       (AppendChild p child) reader'))"

text \<open>
  \<^verbatim>\<open>ReadPacket\<close> reads one packet from the reader and leaves the rest to the next call.
  \<^verbatim>\<open>DecodePacket\<close> reads one packet from a slice and returns \<^verbatim>\<open>nil\<close> on every error.
\<close>

definition ReadPacket :: "byte list \<Rightarrow> ReadError + (Packet \<times> byte list)" where
  "ReadPacket reader = readPacket (Suc (length reader)) reader"

definition DecodePacket :: "byte list \<Rightarrow> Packet option" where
  "DecodePacket data = (case ReadPacket data of Inl e \<Rightarrow> None | Inr (p, rest) \<Rightarrow> Some p)"

section \<open>The rectification engine\<close>

text \<open>
  \<^verbatim>\<open>type rectifier struct { req, res []byte; sendback bool; desc string }\<close>
\<close>

record rectifier =
  req :: "byte list"
  res :: "byte list"
  sendback :: bool
  desc :: string

text \<open>
  The only rectifier the program is built with (\<^verbatim>\<open>initRectifiers\<close>, named ``prova'').
\<close>

definition provaReq :: "byte list" where
  "provaReq =
    [0x63, 0x33, 0x04, 0x00, 0x0a, 0x01, 0x00, 0x0a, 0x01, 0x03, 0x02, 0x01, 0x00, 0x02, 0x01, 0x00,
     0x01, 0x01, 0x00, 0x87, 0x0b, 0x6f, 0x62, 0x6a, 0x65, 0x63, 0x74, 0x43, 0x6c, 0x61, 0x73, 0x73,
     0x30, 0x13, 0x04, 0x11, 0x73, 0x75, 0x62, 0x73, 0x63, 0x68, 0x65, 0x6d, 0x61, 0x53, 0x75, 0x62,
     0x65, 0x6e, 0x74, 0x72, 0x79]"

definition provaRes :: "byte list" where
  "provaRes =
    [0x64, 0x26, 0x04, 0x00, 0x30, 0x22, 0x30, 0x20, 0x04, 0x11, 0x73, 0x75, 0x62, 0x73, 0x63, 0x68,
     0x65, 0x6d, 0x61, 0x53, 0x75, 0x62, 0x65, 0x6e, 0x74, 0x72, 0x79, 0x31, 0x0b, 0x04, 0x09, 0x63,
     0x6e, 0x3d, 0x73, 0x63, 0x68, 0x65, 0x6d, 0x61]"

definition initRectifiers :: "rectifier list" where
  "initRectifiers =
    [\<lparr>req = provaReq, res = provaRes, sendback = True, desc = ''prova''\<rparr>]"

text \<open>
  The loop of \<^verbatim>\<open>rectifyData\<close> over the rectifiers, with its three mutable variables
  \<^verbatim>\<open>b\<close>, \<^verbatim>\<open>rectified\<close> and \<^verbatim>\<open>sendback\<close> as arguments. Both branches of the source are
  kept, the one that ORs in \<^verbatim>\<open>false\<close> too.
\<close>

fun rectifyLoop :: "rectifier list \<Rightarrow> byte list \<Rightarrow> bool \<Rightarrow> bool \<Rightarrow> byte list \<times> bool \<times> bool" where
  "rectifyLoop [] b rectified sb = (b, rectified, sb)"
| "rectifyLoop (singleRectifier # rest) b rectified sb =
     (if bytesContains b (req singleRectifier)
      then rectifyLoop rest (res singleRectifier) (rectified \<or> True) (sb \<or> sendback singleRectifier)
      else rectifyLoop rest b (rectified \<or> False) (sb \<or> False))"

text \<open>
  \<^verbatim>\<open>rectifyData\<close> with the table it iterates over as a parameter, and the function of
  the source, which always takes the table from \<^verbatim>\<open>initRectifiers()\<close>.
\<close>

definition rectifyWith :: "rectifier list \<Rightarrow> byte list \<Rightarrow> byte list \<times> bool \<times> bool" where
  "rectifyWith rectifiers b = rectifyLoop rectifiers b False False"

definition rectifyData :: "byte list \<Rightarrow> byte list \<times> bool \<times> bool" where
  "rectifyData b = rectifyWith initRectifiers b"

subsection \<open>The engine as the specification words it\<close>

text \<open>
  The specification's algorithm, word for word: the state is the buffer and the two flags;
  a rule whose pattern is a contiguous sublist of the current buffer replaces the buffer,
  sets \<open>rectified\<close> and ORs its own flag into \<open>replyToSender\<close>; any other rule leaves
  the state alone. The rules are folded over from the left, in table order.
\<close>

definition spec_rule_step :: "byte list \<times> bool \<times> bool \<Rightarrow> rectifier \<Rightarrow> byte list \<times> bool \<times> bool" where
  "spec_rule_step st rule =
     (case st of (buffer, rectified, replyToSender) \<Rightarrow>
        if sublist (req rule) buffer
        then (res rule, True, replyToSender \<or> sendback rule)
        else (buffer, rectified, replyToSender))"

definition spec_rectify :: "rectifier list \<Rightarrow> byte list \<Rightarrow> byte list \<times> bool \<times> bool" where
  "spec_rectify rules body = foldl spec_rule_step (body, False, False) rules"

section \<open>The pump: \<^verbatim>\<open>handleRequest\<close>\<close>

subsection \<open>One frame\<close>

text \<open>
  The loop over \<^verbatim>\<open>packet.Children[1:]\<close> in \<^verbatim>\<open>handleRequest\<close>, with its variables
  \<^verbatim>\<open>rectifiedPacket\<close>, \<^verbatim>\<open>rectified\<close> and \<^verbatim>\<open>sendback\<close> as arguments. \<^verbatim>\<open>DecodePacket\<close>
  returns \<^verbatim>\<open>nil\<close> for octets it cannot decode, and \<^verbatim>\<open>AppendChild(nil)\<close> dereferences it:
  the result \<open>None\<close> is that panic.
\<close>

fun rectifyChildren ::
  "rectifier list \<Rightarrow> Packet list \<Rightarrow> Packet \<Rightarrow> bool \<Rightarrow> bool \<Rightarrow> (Packet \<times> bool \<times> bool) option" where
  "rectifyChildren rules [] rectifiedPacket rectified sb = Some (rectifiedPacket, rectified, sb)"
| "rectifyChildren rules (child # rest) rectifiedPacket rectified sb =
     (case rectifyWith rules (Bytes child) of
        (d, r, s) \<Rightarrow>
          (case DecodePacket d of
             None \<Rightarrow> None
           | Some decoded \<Rightarrow>
               rectifyChildren rules rest (AppendChild rectifiedPacket decoded)
                 (rectified \<or> r) (sb \<or> s)))"

text \<open>
  ``Prepare outgoing data'': the octets to send and the two flags. With the rectifier, a
  new SEQUENCE that starts with the message identifier and takes every further child
  through \<^verbatim>\<open>rectifyData\<close>; without it, the serialised packet.
\<close>

definition prepareOut ::
  "rectifier list \<Rightarrow> bool \<Rightarrow> Packet \<Rightarrow> int \<Rightarrow> (byte list \<times> bool \<times> bool) option" where
  "prepareOut rules useRectifier packet messageID =
     (if useRectifier
      then (case rectifyChildren rules (drop 1 (Children packet))
                   (AppendChild (Encode ClassUniversal TypeConstructed TagSequence)
                      (NewInteger ClassUniversal TypePrimitive TagInteger messageID))
                   False False of
              None \<Rightarrow> None
            | Some (rectifiedPacket, rectified, sb) \<Rightarrow> Some (Bytes rectifiedPacket, rectified, sb))
      else Some (Bytes packet, False, False))"

text \<open>
  What one turn of the loop does with the packet it has read, up to the write:
  \<open>SkipFrame\<close> is \<^verbatim>\<open>continue\<close>, \<open>PanicFrame\<close> a run-time panic (the type assertion
  \<^verbatim>\<open>Value.(int64)\<close> on a value that is no \<^verbatim>\<open>int64\<close>, a slice expression out of range, or
  the \<^verbatim>\<open>nil\<close> child above), \<open>Out out rectified sendback\<close> the state before ``Write data
  to destination''. The arguments of the logging calls are evaluated whether or not the
  program is verbose; of their slice expressions only
  \<^verbatim>\<open>packet.Bytes()[packetDataNoMsgIDOffset:packetLen]\<close> can be out of range.
\<close>

datatype FrameOut = SkipFrame | PanicFrame | Out "byte list" bool bool

definition processFrame :: "rectifier list \<Rightarrow> bool \<Rightarrow> Packet \<Rightarrow> FrameOut" where
  "processFrame rules useRectifier packet =
     (let packetLen = length (Bytes packet);
          dataLen = length (Data packet);
          packetDataOffset = packetLen - dataLen;
          childrenLen = length (Children packet)
      in if childrenLen = 0 then SkipFrame
         else if Tag (Ident (Children packet ! 0)) \<noteq> TagInteger then SkipFrame
         else let dataMessageIDLen = length (Bytes (Children packet ! 0));
                  packetDataNoMsgIDOffset = packetDataOffset + dataMessageIDLen
              in (case Val (Children packet ! 0) of
                    Int64Value messageID \<Rightarrow>
                      if packetDataNoMsgIDOffset > packetLen then PanicFrame
                      else (case prepareOut rules useRectifier packet messageID of
                              None \<Rightarrow> PanicFrame
                            | Some (out, rectified, sb) \<Rightarrow> Out out rectified sb)
                  | _ \<Rightarrow> PanicFrame))"

subsection \<open>The process, its connections and its goroutines\<close>

text \<open>
  A connection is named by a number. The state of the process records whether an
  unrecovered panic has terminated it, which connections were closed, and every
  successful \<^verbatim>\<open>Write\<close> in order, with the connection it went to.
\<close>

type_synonym Conn = nat

record Process =
  crashed :: bool
  closed :: "Conn set"
  sent :: "(Conn \<times> byte list) list"

text \<open>
  A function body ends by returning or by panicking. A panic that no deferred function
  recovers terminates the whole Go process, whichever goroutine raised it.
\<close>

datatype Ending = Returned | Panicked

definition goroutineEnd :: "Ending \<Rightarrow> Process \<Rightarrow> Process" where
  "goroutineEnd ending proc =
     (case ending of Returned \<Rightarrow> proc | Panicked \<Rightarrow> proc\<lparr>crashed := True\<rparr>)"

section \<open>The reader consumes its input\<close>

text \<open>
  Every packet that is read takes at least the two octets of its header from the reader,
  the bound on the depth of the calls that \<open>ReadPacket\<close> starts with is never reached, and
  a larger bound does not change a result.
\<close>

lemma readHighTag_consumes:
  "readHighTag n t s = Inr (t', s') \<Longrightarrow> length s' < length s"
  by (induction n t s rule: readHighTag.induct) (auto simp: Let_def split: if_splits)

lemma readIdentifier_consumes:
  "readIdentifier s = Inr (i, s') \<Longrightarrow> length s' < length s"
  by (auto simp: readIdentifier_def split: list.splits if_splits sum.splits dest: readHighTag_consumes)

lemma readLengthBytes_consumes:
  "readLengthBytes n a s = Inr (l, s') \<Longrightarrow> length s' \<le> length s"
  by (induction n a s rule: readLengthBytes.induct) auto

lemma readLength_consumes:
  "readLength s = Inr (l, s') \<Longrightarrow> length s' < length s"
  by (auto simp: readLength_def split: list.splits if_splits sum.splits dest: readLengthBytes_consumes)

lemma readHeader_consumes:
  "readHeader s = Inr (i, l, s') \<Longrightarrow> length s' + 2 \<le> length s"
  by (fastforce simp: readHeader_def split: sum.splits if_splits prod.splits
      dest: readIdentifier_consumes readLength_consumes)

lemma readPacket_consumes_aux:
  "(\<forall>s p s'. readPacket f s = Inr (p, s') \<longrightarrow> length s' + 2 \<le> length s) \<and>
   (\<forall>len cr q s p s'. readChildren f len cr q s = Inr (p, s') \<longrightarrow> length s' \<le> length s)"
proof (induction f)
  case 0
  show ?case by simp
next
  case (Suc f)
  show ?case
  proof (intro conjI allI impI)
    fix s p s'
    assume a: "readPacket (Suc f) s = Inr (p, s')"
    then obtain i l s1 where h: "readHeader s = Inr (i, l, s1)"
      by (auto split: sum.splits)
    have h2: "length s1 + 2 \<le> length s" using readHeader_consumes[OF h] .
    show "length s' + 2 \<le> length s"
    proof (cases "TagType i = TypeConstructed")
      case True
      with a h have "readChildren f l 0 (Packet i NilValue [] []) s1 = Inr (p, s')" by simp
      with Suc have "length s' \<le> length s1" by blast
      with h2 show ?thesis by simp
    next
      case False
      with a h have "s' = drop (nat l) s1" by (auto split: if_splits)
      with h2 show ?thesis by simp
    qed
  next
    fix len cr q s p s'
    assume a: "readChildren (Suc f) len cr q s = Inr (p, s')"
    show "length s' \<le> length s"
    proof (cases "len \<noteq> LengthIndefinite \<and> cr = len")
      case True
      with a show ?thesis by simp
    next
      case False
      with a obtain c s1 where r: "readPacket f s = Inr (c, s1)"
        by (auto split: sum.splits if_splits)
      with Suc have l1: "length s1 + 2 \<le> length s" by blast
      show ?thesis
      proof (cases "isEOCPacket c")
        case True
        with a False r have "s' = s1" by (auto split: if_splits)
        with l1 show ?thesis by simp
      next
        case False2: False
        with a False r have "readChildren f len (cr + (int (length s) - int (length s1))) (AppendChild q c) s1 = Inr (p, s')"
          by (auto split: if_splits)
        with Suc have "length s' \<le> length s1" by blast
        with l1 show ?thesis by simp
      qed
    qed
  qed
qed

lemma readPacket_consumes: "readPacket f s = Inr (p, s') \<Longrightarrow> length s' + 2 \<le> length s"
  using readPacket_consumes_aux by blast

lemma readChildren_consumes: "readChildren f len cr q s = Inr (p, s') \<Longrightarrow> length s' \<le> length s"
  using readPacket_consumes_aux by blast

lemma ReadPacket_consumes: "ReadPacket s = Inr (p, s') \<Longrightarrow> length s' < length s"
  unfolding ReadPacket_def by (drule readPacket_consumes) simp


lemma readHighTag_not_fuel: "readHighTag n t s \<noteq> Inl OutOfFuel"
  by (induction n t s rule: readHighTag.induct) (auto simp: Let_def)

lemma readLengthBytes_not_fuel: "readLengthBytes n a s \<noteq> Inl OutOfFuel"
  by (induction n a s rule: readLengthBytes.induct) auto

lemma readIdentifier_not_fuel: "readIdentifier s \<noteq> Inl OutOfFuel"
  using readHighTag_not_fuel
  by (auto simp: readIdentifier_def simp del: readHighTag.simps split: sum.splits list.splits)

lemma readLength_not_fuel: "readLength s \<noteq> Inl OutOfFuel"
  using readLengthBytes_not_fuel
  by (auto simp: readLength_def simp del: readLengthBytes.simps split: sum.splits list.splits)

lemma readHeader_not_fuel: "readHeader s \<noteq> Inl OutOfFuel"
  using readIdentifier_not_fuel readLength_not_fuel
  by (auto simp: readHeader_def split: sum.splits)

lemma readChildren_next:
  "\<not> (len \<noteq> LengthIndefinite \<and> cr = len) \<Longrightarrow> \<not> (len \<noteq> LengthIndefinite \<and> cr > len) \<Longrightarrow>
   readPacket f s = Inr (c, s1) \<Longrightarrow> \<not> isEOCPacket c \<Longrightarrow>
   readChildren (Suc f) len cr q s
     = readChildren f len (cr + (int (length s) - int (length s1))) (AppendChild q c) s1"
  by auto

lemma fuel_enough_aux:
  "(\<forall>s. length s < f \<longrightarrow> readPacket f s \<noteq> Inl OutOfFuel) \<and>
   (\<forall>len cr q s. length s + 1 < f \<longrightarrow> readChildren f len cr q s \<noteq> Inl OutOfFuel)"
proof (induction f)
  case 0
  show ?case by simp
next
  case (Suc f)
  show ?case
  proof (intro conjI allI impI)
    fix s :: "byte list"
    assume len: "length s < Suc f"
    show "readPacket (Suc f) s \<noteq> Inl OutOfFuel"
    proof (cases "readHeader s")
      case (Inl e)
      with readHeader_not_fuel[of s] show ?thesis by simp
    next
      case (Inr r)
      obtain i l s1 where r: "r = (i, l, s1)" by (cases r) auto
      with Inr have "length s1 + 2 \<le> length s" by (auto dest: readHeader_consumes)
      with len have "length s1 + 1 < f" by simp
      with Suc have "readChildren f l 0 (Packet i NilValue [] []) s1 \<noteq> Inl OutOfFuel" by blast
      with Inr r show ?thesis by simp
    qed
  next
    fix len cr q and s :: "byte list"
    assume len: "length s + 1 < Suc f"
    show "readChildren (Suc f) len cr q s \<noteq> Inl OutOfFuel"
    proof (cases "readPacket f s")
      case (Inl e)
      with Suc len have "e \<noteq> OutOfFuel" by auto
      with Inl show ?thesis by simp
    next
      case (Inr r)
      obtain c s1 where r: "r = (c, s1)" by (cases r) auto
      with Inr have "length s1 + 2 \<le> length s" by (auto dest: readPacket_consumes)
      with len have "length s1 + 1 < f" by simp
      with Suc have "readChildren f len (cr + (int (length s) - int (length s1))) (AppendChild q c) s1 \<noteq> Inl OutOfFuel"
        by blast
      with Inr r show ?thesis by auto
    qed
  qed
qed

lemma ReadPacket_never_OutOfFuel: "ReadPacket s \<noteq> Inl OutOfFuel"
  unfolding ReadPacket_def using fuel_enough_aux[of "Suc (length s)"] by simp

lemma fuel_step_aux:
  "(\<forall>s. readPacket f s \<noteq> Inl OutOfFuel \<longrightarrow> readPacket (Suc f) s = readPacket f s) \<and>
   (\<forall>len cr q s. readChildren f len cr q s \<noteq> Inl OutOfFuel \<longrightarrow>
       readChildren (Suc f) len cr q s = readChildren f len cr q s)"
proof (induction f)
  case 0
  show ?case by simp
next
  case (Suc f)
  show ?case
  proof (intro conjI allI impI)
    fix s :: "byte list"
    assume nf: "readPacket (Suc f) s \<noteq> Inl OutOfFuel"
    show "readPacket (Suc (Suc f)) s = readPacket (Suc f) s"
    proof (cases "readHeader s")
      case (Inl e)
      then show ?thesis by simp
    next
      case (Inr r)
      obtain i l s1 where r: "r = (i, l, s1)" by (cases r) auto
      show ?thesis
      proof (cases "TagType i = TypeConstructed")
        case True
        with nf Inr r have "readChildren f l 0 (Packet i NilValue [] []) s1 \<noteq> Inl OutOfFuel" by simp
        with Suc have "readChildren (Suc f) l 0 (Packet i NilValue [] []) s1
            = readChildren f l 0 (Packet i NilValue [] []) s1" by blast
        with Inr r True show ?thesis by simp
      next
        case False
        with Inr r show ?thesis by simp
      qed
    qed
  next
    fix len cr q and s :: "byte list"
    assume nf: "readChildren (Suc f) len cr q s \<noteq> Inl OutOfFuel"
    show "readChildren (Suc (Suc f)) len cr q s = readChildren (Suc f) len cr q s"
    proof (cases "(len \<noteq> LengthIndefinite \<and> cr = len) \<or> (len \<noteq> LengthIndefinite \<and> cr > len)")
      case True
      then show ?thesis by auto
    next
      case False
      with nf have nf1: "readPacket f s \<noteq> Inl OutOfFuel" by (auto split: sum.splits)
      with Suc have eq1: "readPacket (Suc f) s = readPacket f s" by blast
      show ?thesis
      proof (cases "readPacket f s")
        case (Inl e)
        with eq1 False show ?thesis by auto
      next
        case (Inr r)
        obtain c s1 where r: "r = (c, s1)" by (cases r) auto
        show ?thesis
        proof (cases "isEOCPacket c")
          case True
          with Inr r eq1 False show ?thesis by auto
        next
          case nE: False
          from False have n1: "\<not> (len \<noteq> LengthIndefinite \<and> cr = len)"
            and n2: "\<not> (len \<noteq> LengthIndefinite \<and> cr > len)" by blast+
          from Inr r have rp: "readPacket f s = Inr (c, s1)" by simp
          with eq1 have rp': "readPacket (Suc f) s = Inr (c, s1)" by simp
          have u1: "readChildren (Suc f) len cr q s
              = readChildren f len (cr + (int (length s) - int (length s1))) (AppendChild q c) s1"
            by (rule readChildren_next[OF n1 n2 rp nE])
          have u2: "readChildren (Suc (Suc f)) len cr q s
              = readChildren (Suc f) len (cr + (int (length s) - int (length s1))) (AppendChild q c) s1"
            by (rule readChildren_next[OF n1 n2 rp' nE])
          from nf u1
          have "readChildren f len (cr + (int (length s) - int (length s1))) (AppendChild q c) s1 \<noteq> Inl OutOfFuel"
            by simp
          with Suc have "readChildren (Suc f) len (cr + (int (length s) - int (length s1))) (AppendChild q c) s1
              = readChildren f len (cr + (int (length s) - int (length s1))) (AppendChild q c) s1"
            by blast
          with u1 u2 show ?thesis by simp
        qed
      qed
    qed
  qed
qed

lemma readPacket_more_fuel:
  "readPacket f s \<noteq> Inl OutOfFuel \<Longrightarrow> readPacket (f + k) s = readPacket f s"
proof (induction k)
  case 0
  show ?case by simp
next
  case (Suc k)
  then have "readPacket (f + k) s \<noteq> Inl OutOfFuel" by simp
  with fuel_step_aux[of "f + k"] have "readPacket (Suc (f + k)) s = readPacket (f + k) s" by blast
  with Suc show ?case by simp
qed

lemma ReadPacket_fuel:
  assumes "readPacket f s = Inr r"
  shows "ReadPacket s = Inr r"
proof -
  let ?g = "Suc (length s)"
  have a: "readPacket ?g s \<noteq> Inl OutOfFuel" using fuel_enough_aux[of ?g] by simp
  have b: "readPacket f s \<noteq> Inl OutOfFuel" using assms by simp
  have "readPacket (?g + f) s = readPacket ?g s" by (rule readPacket_more_fuel[OF a])
  moreover have "readPacket (f + ?g) s = readPacket f s" by (rule readPacket_more_fuel[OF b])
  ultimately show ?thesis using assms by (simp add: ReadPacket_def add.commute)
qed


subsection \<open>The loop of \<^verbatim>\<open>handleRequest\<close>\<close>

text \<open>
  \<^verbatim>\<open>handleRequest(conn, rconn, desc, useRectifier)\<close> reads from \<^verbatim>\<open>conn\<close> and writes to
  \<^verbatim>\<open>rconn\<close>, or back to \<^verbatim>\<open>conn\<close>. What the environment decides is a parameter: \<open>buf\<close>
  holds the octets that \<^verbatim>\<open>conn\<close> delivers before its read fails or ends, and
  \<open>writeErr n\<close> tells whether the \<^verbatim>\<open>Write\<close> that follows \<open>n\<close> recorded ones fails. The
  rule table is a parameter too; the program runs with \<open>initRectifiers\<close>.

  One turn of the loop: read a packet (an error returns), process it (\<^verbatim>\<open>continue\<close>, panic,
  or octets to send), choose the connection, write (an error returns).
\<close>

function requestLoop ::
  "rectifier list \<Rightarrow> Conn \<Rightarrow> Conn \<Rightarrow> bool \<Rightarrow> (nat \<Rightarrow> bool) \<Rightarrow> byte list \<Rightarrow> Process \<Rightarrow> Ending \<times> Process" where
  "requestLoop rules conn rconn useRectifier writeErr buf proc =
     (case ReadPacket buf of
        Inl err \<Rightarrow> (Returned, proc)
      | Inr (packet, buf') \<Rightarrow>
          (case processFrame rules useRectifier packet of
             SkipFrame \<Rightarrow> requestLoop rules conn rconn useRectifier writeErr buf' proc
           | PanicFrame \<Rightarrow> (Panicked, proc)
           | Out out rectified sb \<Rightarrow>
               if writeErr (length (sent proc)) then (Returned, proc)
               else requestLoop rules conn rconn useRectifier writeErr buf'
                      (proc\<lparr>sent := sent proc @ [(if rectified \<and> sb then conn else rconn, out)]\<rparr>)))"
  by pat_completeness auto
termination
  by (relation "measure (\<lambda>(rules, conn, rconn, useRectifier, writeErr, buf, proc). length buf)")
     (auto dest: ReadPacket_consumes)

text \<open>
  The deferred function of \<^verbatim>\<open>handleRequest\<close> runs however the loop ends: \<^verbatim>\<open>recover()\<close>
  stops a panic, so that the function returns, and both connections are closed.
\<close>

definition deferredClose :: "Conn \<Rightarrow> Conn \<Rightarrow> Ending \<times> Process \<Rightarrow> Ending \<times> Process" where
  "deferredClose conn rconn r =
     (case r of (ending, proc) \<Rightarrow> (Returned, proc\<lparr>closed := closed proc \<union> {conn, rconn}\<rparr>))"

definition handleRequest ::
  "rectifier list \<Rightarrow> Conn \<Rightarrow> Conn \<Rightarrow> bool \<Rightarrow> (nat \<Rightarrow> bool) \<Rightarrow> byte list \<Rightarrow> Process \<Rightarrow> Process" where
  "handleRequest rules conn rconn useRectifier writeErr buf proc =
     (case deferredClose conn rconn (requestLoop rules conn rconn useRectifier writeErr buf proc) of
        (ending, proc') \<Rightarrow> goroutineEnd ending proc')"

section \<open>Accepting connections: \<^verbatim>\<open>handleConn\<close>\<close>

text \<open>
  \<^verbatim>\<open>net.Dial\<close> returns a connection, or \<^verbatim>\<open>nil\<close> and an error: the dial result is \<open>Some
  rconn\<close> or \<open>None\<close>. On an error \<^verbatim>\<open>handleConn\<close> logs it and calls \<^verbatim>\<open>rconn.Close()\<close>, a method
  call on the \<^verbatim>\<open>nil\<close> interface value, which panics; \<^verbatim>\<open>handleConn\<close> defers nothing. Otherwise
  it starts the two pumps, which the result lists as (source, destination, label,
  useRectifier), and returns.
\<close>

definition handleConn :: "Conn \<Rightarrow> Conn option \<Rightarrow> Ending \<times> (Conn \<times> Conn \<times> string \<times> bool) list" where
  "handleConn conn dial =
     (case dial of
        None \<Rightarrow> (Panicked, [])
      | Some rconn \<Rightarrow>
          (Returned, [(conn, rconn, ''client to proxy'', True),
                      (rconn, conn, ''server to proxy'', False)]))"

text \<open>
  The accept loop of \<^verbatim>\<open>main\<close> over the connections that arrive, each with the result its
  dial will have; every \<^verbatim>\<open>handleConn\<close> goroutine is run to its end before the next
  connection is accepted. The loop yields the state of the process and the pumps that were
  started. A terminated process accepts nothing.
\<close>

fun acceptLoop ::
  "(Conn \<times> Conn option) list \<Rightarrow> Process \<times> (Conn \<times> Conn \<times> string \<times> bool) list
     \<Rightarrow> Process \<times> (Conn \<times> Conn \<times> string \<times> bool) list" where
  "acceptLoop [] st = st"
| "acceptLoop ((conn, dial) # arrivals) (proc, pumps) =
     (if crashed proc then (proc, pumps)
      else (case handleConn conn dial of
              (ending, started) \<Rightarrow> acceptLoop arrivals (goroutineEnd ending proc, pumps @ started)))"

section \<open>Properties of the rectification engine\<close>

lemma hasPrefix_prefix: "hasPrefix s p = prefix p s"
  by (induction s p rule: hasPrefix.induct) auto

lemma bytesContains_sublist: "bytesContains b subslice = sublist subslice b"
proof (induction b)
  case Nil
  show ?case by simp
next
  case (Cons x xs)
  then show ?case
    by (simp add: hasPrefix_prefix sublist_Cons_right)
qed

lemma rectifyLoop_foldl:
  "rectifyLoop rules b r s = foldl spec_rule_step (b, r, s) rules"
  by (induction rules arbitrary: b r s)
     (simp_all add: spec_rule_step_def bytesContains_sublist)

lemma rectifyLoop_no_match:
  "\<forall>rule \<in> set rules. \<not> sublist (req rule) b \<Longrightarrow> rectifyLoop rules b r s = (b, r, s)"
  by (induction rules arbitrary: r s) (simp_all add: bytesContains_sublist)

text \<open>
  C2. The rules are evaluated in table order against the current buffer: \<open>rectifyData\<close>
  over any table computes what the specification's algorithm computes (a rule whose
  pattern is a contiguous sublist of the current buffer replaces the buffer, sets
  \<open>rectified\<close> and ORs its flag into \<open>replyToSender\<close>; another rule changes nothing). For
  the rules \<open>A \<rightarrow> B\<close> (no reply) and \<open>B \<rightarrow> C\<close> (reply) and the input \<open>xAy\<close> the result is
  \<open>C\<close> with both flags set.
\<close>

theorem rectify_rules_in_table_order:
  "rectifyWith rules body = spec_rectify rules body
   \<and> rectifyData body = spec_rectify initRectifiers body
   \<and> rectifyWith [\<lparr>req = [0x41], res = [0x42], sendback = False, desc = ''AB''\<rparr>,
                   \<lparr>req = [0x42], res = [0x43], sendback = True, desc = ''BC''\<rparr>]
                  [0x78, 0x41, 0x79]
       = ([0x43], True, True)"
  by (simp add: rectifyWith_def rectifyData_def spec_rectify_def rectifyLoop_foldl[symmetric])

theorem rectify_rules_in_table_order_witness:
  "rectifyWith [\<lparr>req = [0x41], res = [0x42], sendback = True, desc = ''AB''\<rparr>,
                \<lparr>req = [0x41], res = [0x43], sendback = False, desc = ''AC''\<rparr>]
               [0x78, 0x41, 0x79]
     = ([0x42], True, True)
   \<and> spec_rectify [\<lparr>req = [0x41], res = [0x42], sendback = True, desc = ''AB''\<rparr>,
                   \<lparr>req = [0x41], res = [0x43], sendback = False, desc = ''AC''\<rparr>]
                  [0x78, 0x41, 0x79]
     = ([0x42], True, True)"
  using rectify_rules_in_table_order
    [of "[\<lparr>req = [0x41], res = [0x42], sendback = True, desc = ''AB''\<rparr>,
          \<lparr>req = [0x41], res = [0x43], sendback = False, desc = ''AC''\<rparr>]"
        "[0x78, 0x41, 0x79]"]
  by (simp add: rectifyWith_def)

text \<open>
  C7. No match, no effect: when no rule's pattern is a contiguous sublist of the input,
  \<open>rectifyData\<close> returns the input with both flags false. (The buffer then never changes,
  so the input is the only intermediate buffer.)
\<close>

theorem rectify_no_match_no_effect:
  "\<forall>rule \<in> set rules. \<not> sublist (req rule) body \<Longrightarrow>
     rectifyWith rules body = (body, False, False)"
  by (simp add: rectifyWith_def rectifyLoop_no_match)

theorem rectify_no_match_no_effect_witness:
  "\<not> sublist provaReq [0x63, 0x33, 0x04] \<and>
   rectifyData [0x63, 0x33, 0x04] = ([0x63, 0x33, 0x04], False, False)"
proof -
  have n: "\<not> sublist provaReq [0x63, 0x33, 0x04]"
    unfolding bytesContains_sublist[symmetric] provaReq_def by simp
  then have "\<forall>rule \<in> set initRectifiers. \<not> sublist (req rule) [0x63, 0x33, 0x04]"
    by (simp add: initRectifiers_def)
  from rectify_no_match_no_effect[OF this] n show ?thesis
    by (simp add: rectifyData_def)
qed

end
